theory Spec2Isabelle
  imports Complex_Main "HOL-Library.Product_Lexorder" "HOL-Library.AList"
begin

section \<open>Score values\<close>

text \<open>
  The score columns hold IEEE doubles (or integers, when a whole column is integral).
  The code never does arithmetic on the two objectives, it only compares them, and
  comparison of these numbers is exact; so a score is modelled by the real number it
  denotes, the two infinities, or NaN.
\<close>

datatype pyfloat = NegInf | Finite real | PosInf | NaN

text \<open>Python's \<open>a < b\<close> on floats: every comparison with NaN is false.\<close>

fun flt :: "pyfloat \<Rightarrow> pyfloat \<Rightarrow> bool" where
  "flt NaN _ = False"
| "flt _ NaN = False"
| "flt _ NegInf = False"
| "flt NegInf _ = True"
| "flt PosInf _ = False"
| "flt (Finite a) PosInf = True"
| "flt (Finite a) (Finite b) = (a < b)"

text \<open>Python's \<open>a <= b\<close> on floats.\<close>

fun fle :: "pyfloat \<Rightarrow> pyfloat \<Rightarrow> bool" where
  "fle NaN _ = False"
| "fle _ NaN = False"
| "fle NegInf _ = True"
| "fle _ PosInf = True"
| "fle _ NegInf = False"
| "fle PosInf _ = False"
| "fle (Finite a) (Finite b) = (a \<le> b)"

definition is_real :: "pyfloat \<Rightarrow> bool" where
  "is_real v = (case v of Finite _ \<Rightarrow> True | _ \<Rightarrow> False)"

text \<open>
  The position of a value in an ascending pandas sort: numbers in their numeric order,
  NaN after everything else (\<open>na_position='last'\<close>, the default of \<open>sort_values\<close>).
\<close>

fun rank :: "pyfloat \<Rightarrow> nat \<times> real" where
  "rank NegInf = (0, 0)"
| "rank (Finite r) = (1, r)"
| "rank PosInf = (2, 0)"
| "rank NaN = (3, 0)"

section \<open>The Pareto frontier of \<open>plot_sa_vs_affinity\<close>\<close>

text \<open>
  A merged record, as far as the frontier code reads it: its \<open>SA_score\<close> and its
  \<open>affinity_kcal/mol\<close>. The merged frame carries the fresh index \<open>0, 1, ...\<close> that
  \<open>pd.merge\<close> gives it, so a row of the frame is a pair of a label and a record.
\<close>

type_synonym point = "pyfloat \<times> pyfloat"

abbreviation SA_score :: "point \<Rightarrow> pyfloat" where
  "SA_score \<equiv> fst"

abbreviation affinity :: "point \<Rightarrow> pyfloat" where
  "affinity \<equiv> snd"

definition sort_rank :: "point \<Rightarrow> (nat \<times> real) \<times> (nat \<times> real)" where
  "sort_rank p = (rank (SA_score p), rank (affinity p))"

text \<open>
  \<open>merged.sort_values(['SA_score', 'affinity_kcal/mol'])\<close>: ascending by the first
  column, ties broken by the second, NaN last in each column; a sort on several columns
  is a stable lexsort, so rows equal in both columns keep their order. Rows keep their
  index labels.
\<close>

definition sort_values :: "point list \<Rightarrow> (nat \<times> point) list" where
  "sort_values merged = sort_key (\<lambda>ir. sort_rank (snd ir)) (enumerate 0 merged)"

record scan_state =
  pareto_front :: "point list"
  pareto_indices :: "nat list"
  min_y :: pyfloat

definition scan_init :: scan_state where
  "scan_init = \<lparr>pareto_front = [], pareto_indices = [], min_y = PosInf\<rparr>"

text \<open>One iteration of \<open>for idx, row in pareto_points.iterrows()\<close>.\<close>

definition scan_step :: "scan_state \<Rightarrow> nat \<times> point \<Rightarrow> scan_state" where
  "scan_step s ir =
     (if flt (affinity (snd ir)) (min_y s)
      then \<lparr>pareto_front = pareto_front s @ [(SA_score (snd ir), affinity (snd ir))],
            pareto_indices = pareto_indices s @ [fst ir],
            min_y = affinity (snd ir)\<rparr>
      else s)"

definition pareto_scan :: "point list \<Rightarrow> scan_state" where
  "pareto_scan merged = foldl scan_step scan_init (sort_values merged)"

text \<open>The list \<open>pareto_front\<close> that is plotted, and the labels whose rows are saved.\<close>

definition frontier :: "point list \<Rightarrow> point list" where
  "frontier merged = pareto_front (pareto_scan merged)"

definition frontier_indices :: "point list \<Rightarrow> nat list" where
  "frontier_indices merged = pareto_indices (pareto_scan merged)"

text \<open>
  The loop read as a recursion on the rows still to scan, with the running minimum as
  argument: the rows it appends, in order.
\<close>

fun kept :: "pyfloat \<Rightarrow> (nat \<times> point) list \<Rightarrow> (nat \<times> point) list" where
  "kept m [] = []"
| "kept m (ir # rest) =
     (if flt (affinity (snd ir)) m then ir # kept (affinity (snd ir)) rest
      else kept m rest)"

section \<open>Identifier normalisation and the merge\<close>

text \<open>
  A character of a Python string is a code point; \<open>char\<close> covers the code points below
  256. Among those \<open>str.isdigit\<close> accepts the ASCII digits and the three superscript
  digits of Latin-1 (U+00B2, U+00B3, U+00B9).
\<close>

definition isdigit_char :: "char \<Rightarrow> bool" where
  "isdigit_char c = (c \<in> set (''0123456789'' @ [CHR 0xB2, CHR 0xB3, CHR 0xB9]))"

text \<open>\<open>str.isdigit\<close>: every character is a digit and there is at least one character.\<close>

definition isdigit :: "string \<Rightarrow> bool" where
  "isdigit s = (s \<noteq> [] \<and> list_all isdigit_char s)"

text \<open>
  \<open>lambda x: f"{x}.sdf" if str(x).isdigit() else str(x)\<close>, as a function of the string
  form \<open>str(x)\<close> of the raw \<open>ligand\<close> value.
\<close>

definition normalize_ligand :: "string \<Rightarrow> string" where
  "normalize_ligand s = (if isdigit s then s @ ''.sdf'' else s)"

text \<open>
  A cell of a score column as \<open>pd.read_csv\<close> delivers it: a number (a missing value is
  NaN), or, in a column that did not parse as numbers, a string.
\<close>

datatype cell = Num pyfloat | Str string

text \<open>
  The rows of the two frames, with the columns the join and the frontier read.
  \<open>filename\<close> and \<open>ligand\<close> hold the string form of the raw identifier.
\<close>

record sa_rec =
  filename :: string
  sa_score :: cell

record vina_rec =
  ligand :: string
  affinity_kcal_mol :: cell

text \<open>
  \<open>pd.merge(left, right, left_on=..., right_on=...)\<close> with the default \<open>how='inner'\<close>:
  one output row for every pair of a left and a right row with equal keys, in the order of
  the left keys.
\<close>

definition pd_merge :: "('a \<Rightarrow> string) \<Rightarrow> ('b \<Rightarrow> string) \<Rightarrow> 'a list \<Rightarrow> 'b list \<Rightarrow> ('a \<times> 'b) list" where
  "pd_merge left_on right_on left right =
     concat (map (\<lambda>l. map (\<lambda>r. (l, r)) (filter (\<lambda>r. left_on l = right_on r) right)) left)"

text \<open>Lines 42 to 49 of \<open>plot_sa_vs_affinity\<close>.\<close>

definition merged_frame :: "sa_rec list \<Rightarrow> vina_rec list \<Rightarrow> (sa_rec \<times> vina_rec) list" where
  "merged_frame sa_df vina_df =
     pd_merge filename ligand sa_df
       (map (\<lambda>r. r\<lparr>ligand := normalize_ligand (ligand r)\<rparr>) vina_df)"

section \<open>Failures\<close>

text \<open>
  The exceptions of the code. \<open>NoMinimum\<close> stands for what a score column without a
  single number leads to in lines 122 to 132: \<open>idxmin\<close> raises ValueError (pandas 3),
  or it returns NaN and \<open>merged.loc\<close> raises KeyError on that label (earlier versions).
\<close>

datatype error = KeyError | TypeError | ValueError | CsvError | NoMinimum

text \<open>
  \<open>series.astype(float)\<close>: numbers stay, a string goes through \<open>float()\<close>, and one
  string that \<open>float()\<close> rejects raises ValueError. The builtin \<open>float()\<close> on strings is
  the parameter \<open>py_float\<close>.
\<close>

fun astype_float :: "(string \<Rightarrow> pyfloat option) \<Rightarrow> cell list \<Rightarrow> error + pyfloat list" where
  "astype_float py_float [] = Inr []"
| "astype_float py_float (Num v # cs) =
     (case astype_float py_float cs of Inl e \<Rightarrow> Inl e | Inr vs \<Rightarrow> Inr (v # vs))"
| "astype_float py_float (Str s # cs) =
     (case py_float s of None \<Rightarrow> Inl ValueError
      | Some v \<Rightarrow> (case astype_float py_float cs of Inl e \<Rightarrow> Inl e | Inr vs \<Rightarrow> Inr (v # vs)))"

text \<open>
  \<open>Series.idxmin\<close>: the label of the first smallest value, NaN skipped; none when the
  column holds no number.
\<close>

definition idxmin :: "pyfloat list \<Rightarrow> nat option" where
  "idxmin vs =
     (case filter (\<lambda>i. vs ! i \<noteq> NaN) [0..<length vs] of
        [] \<Rightarrow> None
      | i # rest \<Rightarrow> Some (fold (\<lambda>j best. if flt (vs ! j) (vs ! best) then j else best) rest i))"

text \<open>\<open>merged[column].astype(float).idxmin()\<close>, and the use of the label in line 130.\<close>

definition label_index :: "(string \<Rightarrow> pyfloat option) \<Rightarrow> cell list \<Rightarrow> error + nat" where
  "label_index py_float column =
     (case astype_float py_float column of
        Inl e \<Rightarrow> Inl e
      | Inr vs \<Rightarrow> (case idxmin vs of None \<Rightarrow> Inl NoMinimum | Some i \<Rightarrow> Inr i))"

fun cell_num :: "cell \<Rightarrow> pyfloat option" where
  "cell_num (Num v) = Some v"
| "cell_num (Str s) = None"

definition merged_point :: "sa_rec \<times> vina_rec \<Rightarrow> point option" where
  "merged_point m =
     (case (cell_num (sa_score (fst m)), cell_num (affinity_kcal_mol (snd m))) of
        (Some a, Some b) \<Rightarrow> Some (a, b)
      | _ \<Rightarrow> None)"

text \<open>
  What a call of \<open>plot_sa_vs_affinity\<close> leaves behind: the warning of line 52 and nothing
  else, or the plotted \<open>pareto_front\<close> together with the rows saved to \<open>pareto_csv_path\<close>
  (none when the frontier is empty: line 158).
\<close>

datatype outcome = NoMatchWarning | Plotted "point list" "(sa_rec \<times> vina_rec) list option"

text \<open>
  \<open>plot_sa_vs_affinity\<close> from the two frames on: the join, the empty check of line 51,
  the first use of the two scores as numbers in line 81, the labels of lines 122 and 123,
  and the frontier of lines 149 to 164. Line 81 builds a \<open>Wedge\<close> at \<open>(xi, yi)\<close> for
  every merged record and raises TypeError when a coordinate is a string. The rest of the
  drawing (lines 56 to 119 and 129 to 143) is left out, and with it the columns
  \<open>SCScore\<close>, \<open>NP_score\<close> and \<open>failed\<close> that only the drawing reads.
\<close>

definition plot_sa_vs_affinity ::
  "(string \<Rightarrow> pyfloat option) \<Rightarrow> sa_rec list \<Rightarrow> vina_rec list \<Rightarrow> error + outcome" where
  "plot_sa_vs_affinity py_float sa_df vina_df =
     (let merged = merged_frame sa_df vina_df in
      if merged = [] then Inr NoMatchWarning
      else case those (map merged_point merged) of
        None \<Rightarrow> Inl TypeError
      | Some pts \<Rightarrow>
         (case label_index py_float (map (\<lambda>m. affinity_kcal_mol (snd m)) merged) of
            Inl e \<Rightarrow> Inl e
          | Inr _ \<Rightarrow>
             (case label_index py_float (map (\<lambda>m. sa_score (fst m)) merged) of
                Inl e \<Rightarrow> Inl e
              | Inr _ \<Rightarrow>
                 Inr (Plotted (frontier pts)
                        (if frontier pts = [] then None
                         else Some (map (\<lambda>i. merged ! i) (frontier_indices pts)))))))"

section \<open>The rank sorter \<open>postprocess_vina_results\<close>\<close>

definition has_comma :: "string \<Rightarrow> bool" where
  "has_comma line = (CHR '','' \<in> set line)"

text \<open>
  A row of \<open>csv.DictReader\<close> is a dict: its keys are the field names and, for a row longer
  than the header, the rest key \<open>None\<close>; its values are strings, \<open>None\<close> for a field
  the row is too short for, and the list of surplus fields under the rest key.
\<close>

datatype pyval = PStr string | PNone | PList "string list"

type_synonym pydict = "(string option \<times> pyval) list"

text \<open>\<open>DictReader.__next__\<close> on one parsed row.\<close>

definition make_dict :: "string list \<Rightarrow> string list \<Rightarrow> pydict" where
  "make_dict fieldnames row =
     (let d = fold (\<lambda>(k, v). AList.update (Some k) (PStr v)) (zip fieldnames row) [];
          lf = length fieldnames; lr = length row
      in if lf < lr then AList.update None (PList (drop lf row)) d
         else if lf > lr then fold (\<lambda>k. AList.update (Some k) PNone) (drop lr fieldnames) d
         else d)"

text \<open>
  \<open>list(csv.DictReader(lines))\<close> and \<open>reader.fieldnames\<close>. The parser \<open>csv.reader\<close>, which
  turns the lines into rows of fields or raises \<open>csv.Error\<close>, is the parameter
  \<open>csv_reader\<close>. The first row is the header; empty rows after it are skipped.
\<close>

definition dict_reader ::
  "(string list \<Rightarrow> error + string list list) \<Rightarrow> string list
     \<Rightarrow> error + (string list option \<times> pydict list)" where
  "dict_reader csv_reader lines =
     (case csv_reader lines of
        Inl e \<Rightarrow> Inl e
      | Inr [] \<Rightarrow> Inr (None, [])
      | Inr (fieldnames # rows) \<Rightarrow>
          Inr (Some fieldnames, map (make_dict fieldnames) (filter (\<lambda>r. r \<noteq> []) rows)))"

text \<open>\<open>lambda x: float(x['affinity_kcal/mol'])\<close>.\<close>

definition sort_key_of :: "(string \<Rightarrow> pyfloat option) \<Rightarrow> pydict \<Rightarrow> error + pyfloat" where
  "sort_key_of py_float x =
     (case map_of x (Some ''affinity_kcal/mol'') of
        None \<Rightarrow> Inl KeyError
      | Some (PStr s) \<Rightarrow> (case py_float s of None \<Rightarrow> Inl ValueError | Some v \<Rightarrow> Inr v)
      | Some _ \<Rightarrow> Inl TypeError)"

text \<open>The keys of all rows, computed front to back before any comparison; the first failure is raised.\<close>

fun keys_of :: "(string \<Rightarrow> pyfloat option) \<Rightarrow> pydict list \<Rightarrow> error + pyfloat list" where
  "keys_of py_float [] = Inr []"
| "keys_of py_float (x # xs) =
     (case sort_key_of py_float x of
        Inl e \<Rightarrow> Inl e
      | Inr k \<Rightarrow> (case keys_of py_float xs of Inl e \<Rightarrow> Inl e | Inr ks \<Rightarrow> Inr (k # ks)))"

text \<open>
  \<open>list.sort\<close> compares keys with \<open><\<close> only and is stable. Where \<open><\<close> orders the keys
  (no NaN among them) the stable ascending arrangement is unique, and insertion gives it.
  Where no key is below its left neighbour, NaN or not, \<open>list.sort\<close> finds one ascending
  run and leaves the list as it is; so does insertion. On any other list with NaN among
  the keys \<open>list.sort\<close> returns some arrangement of the same rows, which one depending on
  its runs and merges; insertion is no model of that order, and the statements below
  that concern the order are about lists of the two kinds above only.
\<close>

fun insort_lt :: "pyfloat \<times> 'a \<Rightarrow> (pyfloat \<times> 'a) list \<Rightarrow> (pyfloat \<times> 'a) list" where
  "insort_lt x [] = [x]"
| "insort_lt x (y # ys) = (if flt (fst y) (fst x) then y # insort_lt x ys else x # y # ys)"

definition list_sort :: "(pyfloat \<times> 'a) list \<Rightarrow> (pyfloat \<times> 'a) list" where
  "list_sort kvs = foldr insort_lt kvs []"

text \<open>\<open>rows.sort(key=lambda x: float(x['affinity_kcal/mol']))\<close>.\<close>

definition sort_rows :: "(string \<Rightarrow> pyfloat option) \<Rightarrow> pydict list \<Rightarrow> error + pydict list" where
  "sort_rows py_float rows =
     (case keys_of py_float rows of
        Inl e \<Rightarrow> Inl e
      | Inr ks \<Rightarrow> Inr (map snd (list_sort (zip ks rows))))"

text \<open>
  What a call of \<open>postprocess_vina_results\<close> does to \<open>output_path\<close>: it raises before the
  file is opened; or it raises inside the writer, the file then holding the header (if one
  was written) and the rows written so far; or it writes the header and every row.
\<close>

datatype written =
    Raised_before error
  | Raised_writing error "string list option" "pydict list"
  | Written "string list" "pydict list"

text \<open>
  \<open>csv.DictWriter(outfile, fieldnames=reader.fieldnames)\<close>, \<open>writeheader\<close>, \<open>writerows\<close>.
  Without a header \<open>fieldnames\<close> is \<open>None\<close> and \<open>writeheader\<close> raises TypeError. A row
  with a key that is no field name, which here is the rest key, raises ValueError
  (\<open>extrasaction='raise'\<close>); the rows before it are written.
\<close>

definition write_rows :: "string list option \<Rightarrow> pydict list \<Rightarrow> written" where
  "write_rows fieldnames rows =
     (case fieldnames of
        None \<Rightarrow> Raised_writing TypeError None []
      | Some fns \<Rightarrow>
          (let ok = takeWhile (\<lambda>d. map_of d None = None) rows
           in if length ok = length rows then Written fns rows
              else Raised_writing ValueError (Some fns) ok))"

definition postprocess_vina_results ::
  "(string list \<Rightarrow> error + string list list) \<Rightarrow> (string \<Rightarrow> pyfloat option) \<Rightarrow> string list
     \<Rightarrow> written" where
  "postprocess_vina_results csv_reader py_float infile =
     (let lines = filter has_comma infile in
      case dict_reader csv_reader lines of
        Inl e \<Rightarrow> Raised_before e
      | Inr (fieldnames, rows) \<Rightarrow>
          (case sort_rows py_float rows of
             Inl e \<Rightarrow> Raised_before e
           | Inr sorted_rows \<Rightarrow> write_rows fieldnames sorted_rows))"

section \<open>Concrete readers for the examples\<close>

text \<open>
  \<open>csv.reader\<close> on lines that hold no quote character and no carriage return: the line
  without its newline, cut at the commas.
\<close>

fun split_fields :: "string \<Rightarrow> string list" where
  "split_fields [] = [[]]"
| "split_fields (c # cs) =
     (if c = CHR '','' then [] # split_fields cs
      else (case split_fields cs of [] \<Rightarrow> [[c]] | f # fs \<Rightarrow> (c # f) # fs))"

definition plain_row :: "string \<Rightarrow> string list" where
  "plain_row line =
     (let l = takeWhile (\<lambda>c. c \<noteq> CHR 0x0A) line in if l = [] then [] else split_fields l)"

definition plain_csv_reader :: "string list \<Rightarrow> error + string list list" where
  "plain_csv_reader lines = Inr (map plain_row lines)"

text \<open>
  \<open>float()\<close> on the strings the examples pass to it: the literals listed, which it
  accepts (each decimal is a double), and strings that it rejects.
\<close>

definition float_lit :: "string \<Rightarrow> pyfloat option" where
  "float_lit s =
     (if s = ''1'' then Some (Finite 1)
      else if s = ''2'' then Some (Finite 2)
      else if s = ''-7.5'' then Some (Finite (- 7.5))
      else if s = ''-9.25'' then Some (Finite (- 9.25))
      else if s = ''nan'' then Some NaN
      else None)"

section \<open>Comparison of scores\<close>

lemma flt_irrefl: "\<not> flt a a"
  by (cases a) simp_all

lemma flt_trans: "flt a b \<Longrightarrow> flt b c \<Longrightarrow> flt a c"
  by (cases a; cases b; cases c) simp_all

lemma flt_asym: "flt a b \<Longrightarrow> \<not> flt b a"
  by (cases a; cases b) simp_all

lemma flt_imp_fle: "flt a b \<Longrightarrow> fle a b"
  by (cases a; cases b) simp_all

lemma flt_rank: "flt a b \<Longrightarrow> rank a < rank b"
  by (cases a; cases b) simp_all

lemma fle_rank: "fle a b \<Longrightarrow> rank a \<le> rank b"
  by (cases a; cases b) simp_all

lemma rank_fle: "a \<noteq> NaN \<Longrightarrow> b \<noteq> NaN \<Longrightarrow> rank a \<le> rank b \<Longrightarrow> fle a b"
  by (cases a; cases b) simp_all

lemma rank_less_iff: "a \<noteq> NaN \<Longrightarrow> b \<noteq> NaN \<Longrightarrow> rank a < rank b \<longleftrightarrow> flt a b"
  by (cases a; cases b) simp_all

lemma rank_le_iff: "a \<noteq> NaN \<Longrightarrow> b \<noteq> NaN \<Longrightarrow> rank a \<le> rank b \<longleftrightarrow> fle a b"
  by (cases a; cases b) simp_all

lemma rank_eq_iff: "rank a = rank b \<longleftrightarrow> a = b"
  by (cases a; cases b) simp_all

text \<open>
  On records without NaN the order of \<open>sort_values\<close> is the lexicographic order of the
  two scores under the comparisons of the floats themselves.
\<close>

lemma sort_rank_le_iff:
  assumes "SA_score p \<noteq> NaN" "SA_score q \<noteq> NaN" "affinity p \<noteq> NaN" "affinity q \<noteq> NaN"
  shows "sort_rank p \<le> sort_rank q \<longleftrightarrow>
         flt (SA_score p) (SA_score q) \<or> (SA_score p = SA_score q \<and> fle (affinity p) (affinity q))"
proof -
  have "sort_rank p \<le> sort_rank q \<longleftrightarrow>
        rank (SA_score p) < rank (SA_score q)
        \<or> (rank (SA_score p) = rank (SA_score q) \<and> rank (affinity p) \<le> rank (affinity q))"
    unfolding sort_rank_def less_eq_prod_simp by (simp only: le_less) blast
  then show ?thesis
    using assms by (simp add: rank_less_iff rank_le_iff rank_eq_iff)
qed

section \<open>The scan as a recursion\<close>

lemma scan_step_accept:
  "flt (affinity (snd ir)) (min_y s) \<Longrightarrow>
   pareto_front (scan_step s ir) = pareto_front s @ [snd ir] \<and>
   pareto_indices (scan_step s ir) = pareto_indices s @ [fst ir] \<and>
   min_y (scan_step s ir) = affinity (snd ir)"
  by (simp add: scan_step_def)

lemma scan_step_reject: "\<not> flt (affinity (snd ir)) (min_y s) \<Longrightarrow> scan_step s ir = s"
  by (simp add: scan_step_def)

lemma foldl_scan_front:
  "pareto_front (foldl scan_step s rows) = pareto_front s @ map snd (kept (min_y s) rows)"
proof (induction rows arbitrary: s)
  case Nil
  show ?case by simp
next
  case (Cons ir rows)
  show ?case
  proof (cases "flt (affinity (snd ir)) (min_y s)")
    case True
    then show ?thesis using Cons.IH [of "scan_step s ir"] by (simp add: scan_step_accept)
  next
    case False
    then show ?thesis using Cons.IH [of s] by (simp add: scan_step_reject)
  qed
qed

lemma foldl_scan_indices:
  "pareto_indices (foldl scan_step s rows) = pareto_indices s @ map fst (kept (min_y s) rows)"
proof (induction rows arbitrary: s)
  case Nil
  show ?case by simp
next
  case (Cons ir rows)
  show ?case
  proof (cases "flt (affinity (snd ir)) (min_y s)")
    case True
    then show ?thesis using Cons.IH [of "scan_step s ir"] by (simp add: scan_step_accept)
  next
    case False
    then show ?thesis using Cons.IH [of s] by (simp add: scan_step_reject)
  qed
qed

lemma frontier_kept: "frontier merged = map snd (kept PosInf (sort_values merged))"
  by (simp add: frontier_def pareto_scan_def foldl_scan_front scan_init_def)

lemma frontier_indices_kept:
  "frontier_indices merged = map fst (kept PosInf (sort_values merged))"
  by (simp add: frontier_indices_def pareto_scan_def foldl_scan_indices scan_init_def)

text \<open>
  An appended row is strictly below the minimum the scan started with, and no row scanned
  before it is strictly below it.
\<close>

lemma kept_split:
  "p \<in> set (kept m rows) \<Longrightarrow>
   flt (affinity (snd p)) m \<and>
   (\<exists>xs ys. rows = xs @ p # ys \<and> (\<forall>q\<in>set xs. \<not> flt (affinity (snd q)) (affinity (snd p))))"
proof (induction rows arbitrary: m)
  case Nil
  then show ?case by simp
next
  case (Cons r rows)
  show ?case
  proof (cases "flt (affinity (snd r)) m")
    case True
    with Cons.prems have "p = r \<or> p \<in> set (kept (affinity (snd r)) rows)" by simp
    then show ?thesis
    proof
      assume "p = r"
      with True have "r # rows = [] @ p # rows" by simp
      with True \<open>p = r\<close> show ?thesis by fastforce
    next
      assume "p \<in> set (kept (affinity (snd r)) rows)"
      from Cons.IH [OF this] obtain xs ys where
        lt: "flt (affinity (snd p)) (affinity (snd r))" and
        sp: "rows = xs @ p # ys" and
        bf: "\<forall>q\<in>set xs. \<not> flt (affinity (snd q)) (affinity (snd p))"
        by blast
      have "r # rows = (r # xs) @ p # ys" using sp by simp
      moreover have "\<forall>q\<in>set (r # xs). \<not> flt (affinity (snd q)) (affinity (snd p))"
        using bf flt_asym [OF lt] by simp
      moreover have "flt (affinity (snd p)) m" using lt True by (rule flt_trans)
      ultimately show ?thesis by blast
    qed
  next
    case False
    with Cons.prems have "p \<in> set (kept m rows)" by simp
    from Cons.IH [OF this] obtain xs ys where
      lt: "flt (affinity (snd p)) m" and
      sp: "rows = xs @ p # ys" and
      bf: "\<forall>q\<in>set xs. \<not> flt (affinity (snd q)) (affinity (snd p))"
      by blast
    have "r # rows = (r # xs) @ p # ys" using sp by simp
    moreover have "\<not> flt (affinity (snd r)) (affinity (snd p))"
      using False lt flt_trans by blast
    ultimately show ?thesis using lt bf by (metis set_ConsD)
  qed
qed

lemma kept_below: "p \<in> set (kept m rows) \<Longrightarrow> flt (affinity (snd p)) m"
  using kept_split by blast

lemma set_kept: "set (kept m rows) \<subseteq> set rows"
proof (induction rows arbitrary: m)
  case Nil
  show ?case by simp
next
  case (Cons r rows)
  show ?case using Cons.IH [of m] Cons.IH [of "affinity (snd r)"] by auto
qed

lemma sorted_wrt_kept: "sorted_wrt P rows \<Longrightarrow> sorted_wrt P (kept m rows)"
proof (induction rows arbitrary: m)
  case Nil
  show ?case by simp
next
  case (Cons r rows)
  then have "\<forall>q\<in>set (kept (affinity (snd r)) rows). P r q"
    using set_kept by fastforce
  with Cons show ?case by simp
qed

lemma kept_decreasing:
  "sorted_wrt (\<lambda>p q. flt (affinity (snd q)) (affinity (snd p))) (kept m rows)"
proof (induction rows arbitrary: m)
  case Nil
  show ?case by simp
next
  case (Cons r rows)
  show ?case using Cons.IH by (simp add: kept_below)
qed

section \<open>The sorted frame\<close>

lemma sorted_sort_values:
  "sorted (map (\<lambda>ir. sort_rank (snd ir)) (sort_values merged))"
  by (simp add: sort_values_def)

lemma in_sort_values:
  "(i, p) \<in> set (sort_values merged) \<longleftrightarrow> i < length merged \<and> p = merged ! i"
  by (auto simp: sort_values_def in_set_enumerate_eq)

lemma sort_rank_le_SA:
  "sort_rank p \<le> sort_rank q \<Longrightarrow> SA_score p \<noteq> NaN \<Longrightarrow> SA_score q \<noteq> NaN
   \<Longrightarrow> fle (SA_score p) (SA_score q)"
  by (rule rank_fle) (auto simp: sort_rank_def)

lemma sort_values_ascending:
  assumes "\<forall>p\<in>set merged. SA_score p \<noteq> NaN"
  shows "sorted_wrt (\<lambda>p q. fle (SA_score (snd p)) (SA_score (snd q))) (sort_values merged)"
proof -
  have "sorted_wrt (\<lambda>p q. sort_rank (snd p) \<le> sort_rank (snd q)) (sort_values merged)"
    using sorted_sort_values [of merged] by (simp add: sorted_map)
  moreover have "\<forall>p\<in>set (sort_values merged). SA_score (snd p) \<noteq> NaN"
    using assms by (auto simp: in_sort_values)
  ultimately show ?thesis
    using sorted_wrt_mono_rel [of "sort_values merged"
        "\<lambda>p q. sort_rank (snd p) \<le> sort_rank (snd q)"
        "\<lambda>p q. fle (SA_score (snd p)) (SA_score (snd q))"]
    by (blast intro: sort_rank_le_SA)
qed

lemma enumerate_prefix:
  assumes "enumerate 0 xs = us @ (i, x) # vs"
  shows "length us = i"
proof -
  have "map fst (enumerate 0 xs) ! length us = i"
    using assms by (simp add: nth_append)
  moreover have "length us < length xs"
    using arg_cong [OF assms, of length] by simp
  ultimately show ?thesis by simp
qed

lemma first_with_rank:
  assumes "filter P (enumerate 0 xs) = (i, x) # rest" and "j < i"
  shows "\<not> P (j, xs ! j)"
proof -
  from assms(1) obtain us vs where
    sp: "enumerate 0 xs = us @ (i, x) # vs" and no: "\<forall>u\<in>set us. \<not> P u"
    by (auto simp: filter_eq_Cons_iff)
  have len: "length us = i" using sp by (rule enumerate_prefix)
  have "i < length xs" using arg_cong [OF sp, of length] len by simp
  with assms(2) have "enumerate 0 xs ! j = (j, xs ! j)" by (simp add: nth_enumerate_eq)
  moreover have "enumerate 0 xs ! j = us ! j" using sp len assms(2) by (simp add: nth_append)
  ultimately have "(j, xs ! j) \<in> set us" using len assms(2) by (metis nth_mem)
  with no show ?thesis by blast
qed

text \<open>
  The first row of the sorted frame: no record ranks below it, and every record before it
  in \<open>merged\<close> ranks strictly above it (the sort is stable).
\<close>

lemma hd_sort_values:
  assumes "merged \<noteq> []"
  obtains i rest where "sort_values merged = (i, merged ! i) # rest" and "i < length merged"
    and "\<forall>j<length merged. sort_rank (merged ! i) \<le> sort_rank (merged ! j)"
    and "\<forall>j<i. sort_rank (merged ! i) < sort_rank (merged ! j)"
proof -
  let ?f = "\<lambda>ir :: nat \<times> point. sort_rank (snd ir)"
  have "length (sort_values merged) = length merged" by (simp add: sort_values_def)
  with assms obtain h rest where sv: "sort_values merged = h # rest"
    by (cases "sort_values merged") auto
  obtain i p where h: "h = (i, p)" by (cases h)
  have "(i, p) \<in> set (sort_values merged)" using sv h by simp
  then have i: "i < length merged" and p: "p = merged ! i" by (simp_all add: in_sort_values)
  have min: "\<forall>j<length merged. sort_rank (merged ! i) \<le> sort_rank (merged ! j)"
  proof (intro allI impI)
    fix j assume "j < length merged"
    then have "(j, merged ! j) \<in> set (sort_values merged)" by (simp add: in_sort_values)
    with sv h p have "j = i \<or> (j, merged ! j) \<in> set rest" by auto
    moreover have "\<forall>q\<in>set rest. ?f h \<le> ?f q"
      using sorted_sort_values [of merged] sv by simp
    ultimately show "sort_rank (merged ! i) \<le> sort_rank (merged ! j)"
      using h p by auto
  qed
  have "filter (\<lambda>y. ?f y = ?f h) (enumerate 0 merged)
        = filter (\<lambda>y. ?f y = ?f h) (sort_values merged)"
    by (simp add: sort_values_def sort_key_stable)
  also have "\<dots> = (i, merged ! i) # filter (\<lambda>y. ?f y = ?f h) rest"
    using sv h p by simp
  finally have fst: "\<forall>j<i. ?f (j, merged ! j) \<noteq> ?f h"
    using first_with_rank [of "\<lambda>y. ?f y = ?f h" merged i "merged ! i"] by blast
  have "\<forall>j<i. sort_rank (merged ! i) < sort_rank (merged ! j)"
  proof (intro allI impI)
    fix j assume ji: "j < i"
    with fst h p have "sort_rank (merged ! j) \<noteq> sort_rank (merged ! i)" by simp
    moreover from min ji i have "sort_rank (merged ! i) \<le> sort_rank (merged ! j)" by simp
    ultimately show "sort_rank (merged ! i) < sort_rank (merged ! j)" by simp
  qed
  with that sv h p i min show thesis by blast
qed

lemma not_dominated_later:
  assumes "sort_rank p \<le> sort_rank q"
  shows "\<not> (fle (SA_score q) (SA_score p) \<and> flt (affinity q) (affinity p))"
proof
  assume a: "fle (SA_score q) (SA_score p) \<and> flt (affinity q) (affinity p)"
  then have "rank (SA_score q) \<le> rank (SA_score p)" and "rank (affinity q) < rank (affinity p)"
    by (simp_all add: fle_rank flt_rank)
  with assms show False by (auto simp: sort_rank_def)
qed

lemma kept_not_dominated:
  assumes srt: "sorted (map (\<lambda>ir. sort_rank (snd ir)) rows)"
    and p: "p \<in> set (kept m rows)" and q: "q \<in> set rows"
  shows "\<not> (fle (SA_score (snd q)) (SA_score (snd p)) \<and> flt (affinity (snd q)) (affinity (snd p)))"
proof -
  from kept_split [OF p] obtain xs ys where
    sp: "rows = xs @ p # ys" and
    bf: "\<forall>q\<in>set xs. \<not> flt (affinity (snd q)) (affinity (snd p))"
    by blast
  from q sp have "q \<in> set xs \<or> q = p \<or> q \<in> set ys" by auto
  then show ?thesis
  proof (elim disjE)
    assume "q \<in> set xs" with bf show ?thesis by blast
  next
    assume "q = p" then show ?thesis by (simp add: flt_irrefl)
  next
    assume "q \<in> set ys"
    with srt sp have "sort_rank (snd p) \<le> sort_rank (snd q)"
      by (auto simp: sorted_append)
    then show ?thesis by (rule not_dominated_later)
  qed
qed

section \<open>Properties of the frontier\<close>

lemma enumerate_example:
  "enumerate 0 [a, b, c, d] = [(0, a), (Suc 0, b), (2, c), (3, d)]"
  by (simp add: enumerate_eq_zip upt_rec numeral_eq_Suc)

text \<open>
  Claim C1. The frontier is what the scan appends on the records sorted by (SA score,
  affinity): a record is appended exactly when its affinity is strictly below the
  running minimum, which starts at plus infinity. For the records (1,5), (2,3), (2,8),
  (4,1) it is exactly (1,5), (2,3), (4,1): the point (2,8) shares its SA score with an
  accepted point and is left out, its affinity not being strictly below the minimum 3.
\<close>

theorem frontier_scenario:
  "frontier merged = map snd (kept PosInf (sort_values merged))
   \<and> frontier [(Finite 1, Finite 5), (Finite 2, Finite 3), (Finite 2, Finite 8),
             (Finite 4, Finite 1)]
   = [(Finite 1, Finite 5), (Finite 2, Finite 3), (Finite 4, Finite 1)]
   \<and> frontier_indices [(Finite 1, Finite 5), (Finite 2, Finite 3), (Finite 2, Finite 8),
             (Finite 4, Finite 1)] = [0, 1, 3]"
proof -
  have "frontier [(Finite 1, Finite 5), (Finite 2, Finite 3), (Finite 2, Finite 8),
             (Finite 4, Finite 1)]
      = [(Finite 1, Finite 5), (Finite 2, Finite 3), (Finite 4, Finite 1)]"
    by (simp add: frontier_def pareto_scan_def sort_values_def
        enumerate_example sort_rank_def scan_step_def scan_init_def)
  moreover have "frontier_indices [(Finite 1, Finite 5), (Finite 2, Finite 3),
             (Finite 2, Finite 8), (Finite 4, Finite 1)] = [0, 1, 3]"
    by (simp add: frontier_indices_def pareto_scan_def sort_values_def
        enumerate_example sort_rank_def scan_step_def scan_init_def)
  ultimately show ?thesis by (simp only: frontier_kept simp_thms)
qed

text \<open>
  Claim C2 (frontier minimality). Whatever the merged records are, no record left out of
  the frontier has an SA score less than or equal to that of a frontier point together
  with an affinity strictly less than that of the same point. The comparisons are those
  of the floats, so the statement covers infinities and NaN.
\<close>

theorem frontier_minimality:
  assumes "i < length merged" and "i \<notin> set (frontier_indices merged)"
    and "j \<in> set (frontier_indices merged)"
  shows "\<not> (fle (SA_score (merged ! i)) (SA_score (merged ! j))
            \<and> flt (affinity (merged ! i)) (affinity (merged ! j)))"
proof -
  from assms(3) obtain p where p: "(j, p) \<in> set (kept PosInf (sort_values merged))"
    by (auto simp: frontier_indices_kept)
  then have "(j, p) \<in> set (sort_values merged)"
    using kept_split by fastforce
  then have pj: "p = merged ! j" by (simp add: in_sort_values)
  have q: "(i, merged ! i) \<in> set (sort_values merged)"
    using assms(1) by (simp add: in_sort_values)
  from kept_not_dominated [OF sorted_sort_values p q] pj show ?thesis by simp
qed

theorem frontier_minimality_witness:
  "2 < length [(Finite 1, Finite 5), (Finite 2, Finite 3), (Finite 2, Finite 8), (Finite 4, Finite 1)]
   \<and> 2 \<notin> set (frontier_indices
        [(Finite 1, Finite 5), (Finite 2, Finite 3), (Finite 2, Finite 8), (Finite 4, Finite 1)])
   \<and> 3 \<in> set (frontier_indices
        [(Finite 1, Finite 5), (Finite 2, Finite 3), (Finite 2, Finite 8), (Finite 4, Finite 1)])
   \<and> \<not> (fle (Finite 2) (Finite 4) \<and> flt (Finite 8) (Finite 1))"
  using frontier_minimality [of 2
      "[(Finite 1, Finite 5), (Finite 2, Finite 3), (Finite 2, Finite 8), (Finite 4, Finite 1)]" 3]
  by (simp add: frontier_indices_def pareto_scan_def sort_values_def
      enumerate_example sort_rank_def scan_step_def scan_init_def)

text \<open>
  Claim C3 (frontier monotonicity and output order), as amended. When no record has NaN
  as its SA score, the SA score does not decrease and the affinity does not increase from
  one frontier point to the next, and the whole frontier is in ascending order of the SA
  score. Affinities may be NaN: such records are never appended.
\<close>

theorem frontier_staircase:
  assumes "\<forall>p\<in>set merged. SA_score p \<noteq> NaN"
  shows "successively (\<lambda>p q. fle (SA_score p) (SA_score q) \<and> fle (affinity q) (affinity p))
           (frontier merged)
         \<and> sorted_wrt (\<lambda>p q. fle (SA_score p) (SA_score q)) (frontier merged)"
proof -
  let ?ks = "kept PosInf (sort_values merged)"
  have a: "sorted_wrt (\<lambda>p q. fle (SA_score (snd p)) (SA_score (snd q))) ?ks"
    using sort_values_ascending [OF assms] by (rule sorted_wrt_kept)
  have "sorted_wrt (\<lambda>p q. flt (affinity (snd q)) (affinity (snd p))) ?ks"
    by (rule kept_decreasing)
  then have b: "sorted_wrt (\<lambda>p q. fle (affinity (snd q)) (affinity (snd p))) ?ks"
    by (rule sorted_wrt_mono_rel [rotated]) (simp add: flt_imp_fle)
  from a b have "sorted_wrt (\<lambda>p q. fle (SA_score (snd p)) (SA_score (snd q))
      \<and> fle (affinity (snd q)) (affinity (snd p))) ?ks"
    by (simp add: sorted_wrt_iff_nth_less)
  then have "sorted_wrt (\<lambda>p q. fle (SA_score p) (SA_score q) \<and> fle (affinity q) (affinity p))
      (frontier merged)"
    by (simp add: frontier_kept sorted_wrt_map)
  moreover have "sorted_wrt (\<lambda>p q. fle (SA_score p) (SA_score q)) (frontier merged)"
    using a by (simp add: frontier_kept sorted_wrt_map)
  ultimately show ?thesis by (simp add: successively_if_sorted_wrt)
qed

theorem frontier_staircase_witness:
  "SA_score (Finite 2, Finite 3) \<noteq> NaN \<and> SA_score (Finite 1, Finite 5) \<noteq> NaN
   \<and> SA_score (Finite 3, NaN) \<noteq> NaN
   \<and> frontier [(Finite 2, Finite 3), (Finite 1, Finite 5), (Finite 3, NaN)]
       = [(Finite 1, Finite 5), (Finite 2, Finite 3)]
   \<and> fle (Finite 1) (Finite 2) \<and> fle (Finite 3) (Finite 5)"
  using frontier_staircase [of "[(Finite 2, Finite 3), (Finite 1, Finite 5), (Finite 3, NaN)]"]
  by (simp add: frontier_def pareto_scan_def sort_values_def enumerate_eq_zip upt_rec
      sort_rank_def scan_step_def scan_init_def numeral_eq_Suc)

text \<open>
  The claim as stated, for every record set, fails on a record without SA score (NaN):
  \<open>sort_values\<close> puts it last, its affinity 3 is below the running minimum 5, and the
  frontier goes from SA score 1 to NaN, which is not greater than or equal to 1.
\<close>

theorem frontier_staircase_NaN:
  "frontier [(Finite 1, Finite 5), (NaN, Finite 3)] = [(Finite 1, Finite 5), (NaN, Finite 3)]
   \<and> \<not> fle (Finite 1) NaN"
  by (simp add: frontier_def pareto_scan_def sort_values_def enumerate_eq_zip upt_rec
      sort_rank_def scan_step_def scan_init_def)

text \<open>
  Claim C9 (first frontier point). For a non-empty record set whose affinities are all
  real numbers, the frontier is not empty and its first point is the record that is
  least in the lexicographic order of (SA score, affinity): no record ranks below it, and
  the records before it in the input rank strictly above it. The order is that of
  \<open>sort_values\<close>, which on numbers is the numeric one (\<open>sort_rank_le_iff\<close>).
\<close>

theorem frontier_first_point:
  assumes "merged \<noteq> []" and "\<forall>p\<in>set merged. is_real (affinity p)"
  shows "frontier_indices merged \<noteq> [] \<and> frontier merged \<noteq> []
         \<and> hd (frontier_indices merged) < length merged
         \<and> hd (frontier merged) = merged ! hd (frontier_indices merged)
         \<and> (\<forall>j<length merged.
               sort_rank (merged ! hd (frontier_indices merged)) \<le> sort_rank (merged ! j))
         \<and> (\<forall>j<hd (frontier_indices merged).
               sort_rank (merged ! hd (frontier_indices merged)) < sort_rank (merged ! j))"
proof -
  from hd_sort_values [OF assms(1)] obtain i rest where
    sv: "sort_values merged = (i, merged ! i) # rest" and i: "i < length merged"
    and min: "\<forall>j<length merged. sort_rank (merged ! i) \<le> sort_rank (merged ! j)"
    and first: "\<forall>j<i. sort_rank (merged ! i) < sort_rank (merged ! j)"
    by blast
  have "is_real (affinity (merged ! i))" using assms(2) i by simp
  then have "flt (affinity (merged ! i)) PosInf"
    by (cases "affinity (merged ! i)") (simp_all add: is_real_def)
  then have "kept PosInf (sort_values merged)
             = (i, merged ! i) # kept (affinity (merged ! i)) rest"
    using sv by simp
  then have "frontier_indices merged = i # map fst (kept (affinity (merged ! i)) rest)"
    and "frontier merged = merged ! i # map snd (kept (affinity (merged ! i)) rest)"
    by (simp_all add: frontier_indices_kept frontier_kept)
  with i min first show ?thesis by simp
qed

theorem frontier_first_point_witness:
  "[(Finite 2, Finite 3), (Finite 1, Finite 5), (Finite 1, Finite 5)] \<noteq> []
   \<and> is_real (Finite 3) \<and> is_real (Finite 5)
   \<and> hd (frontier_indices [(Finite 2, Finite 3), (Finite 1, Finite 5), (Finite 1, Finite 5)]) = 1
   \<and> hd (frontier [(Finite 2, Finite 3), (Finite 1, Finite 5), (Finite 1, Finite 5)])
       = (Finite 1, Finite 5)
   \<and> sort_rank (Finite 1, Finite 5) < sort_rank (Finite 2, Finite 3)"
  using frontier_first_point [of "[(Finite 2, Finite 3), (Finite 1, Finite 5), (Finite 1, Finite 5)]"]
  by (simp add: frontier_def frontier_indices_def pareto_scan_def sort_values_def
      enumerate_eq_zip upt_rec sort_rank_def scan_step_def scan_init_def is_real_def
      numeral_eq_Suc)

section \<open>Properties of the normaliser and the merge\<close>

lemma not_isdigit_sdf: "\<not> isdigit (s @ ''.sdf'')"
  by (simp add: isdigit_def isdigit_char_def)

lemma isdigit_iff: "isdigit s \<longleftrightarrow> s \<noteq> [] \<and> (\<forall>c\<in>set s. isdigit_char c)"
  by (simp add: isdigit_def list_all_iff)

text \<open>
  Claim C5 (identifier normalisation). An identifier whose string form consists solely of
  digits (one digit at least) gets the suffix \<open>.sdf\<close>, every other string is returned
  unchanged; the function is defined on every string and idempotent; \<open>42.sdf\<close> stays
  \<open>42.sdf\<close> and \<open>42\<close> becomes \<open>42.sdf\<close>.
\<close>

theorem normalize_ligand_rule:
  "normalize_ligand s = (if s \<noteq> [] \<and> (\<forall>c\<in>set s. isdigit_char c) then s @ ''.sdf'' else s)
   \<and> normalize_ligand (normalize_ligand s) = normalize_ligand s
   \<and> normalize_ligand ''42.sdf'' = ''42.sdf''
   \<and> normalize_ligand ''42'' = ''42.sdf''"
proof -
  have "normalize_ligand (normalize_ligand s) = normalize_ligand s"
    by (simp add: normalize_ligand_def not_isdigit_sdf)
  moreover have "normalize_ligand ''42.sdf'' = ''42.sdf''"
    by (simp add: normalize_ligand_def isdigit_def isdigit_char_def)
  moreover have "normalize_ligand ''42'' = ''42.sdf''"
    by (simp add: normalize_ligand_def isdigit_def isdigit_char_def)
  ultimately show ?thesis
    by (simp add: normalize_ligand_def isdigit_iff)
qed

theorem normalize_ligand_rule_witness:
  "normalize_ligand ''007'' = ''007.sdf''
   \<and> normalize_ligand ''ligand_007.sdf'' = ''ligand_007.sdf''
   \<and> normalize_ligand [] = []"
  using normalize_ligand_rule [of "''007''"] normalize_ligand_rule [of "''ligand_007.sdf''"]
    normalize_ligand_rule [of "[]"]
  by (simp add: isdigit_char_def)

lemma set_pd_merge:
  "set (pd_merge f g left right) = {(l, r). l \<in> set left \<and> r \<in> set right \<and> f l = g r}"
  by (auto simp: pd_merge_def)


lemma pd_merge_empty_iff:
  "pd_merge f g left right = [] \<longleftrightarrow> f ` set left \<inter> g ` set right = {}"
proof -
  have "pd_merge f g left right = [] \<longleftrightarrow> set (pd_merge f g left right) = {}"
    by simp
  also have "\<dots> \<longleftrightarrow> f ` set left \<inter> g ` set right = {}"
    unfolding set_pd_merge by auto
  finally show ?thesis .
qed

lemma merged_frame_empty_iff:
  "merged_frame sa_df vina_df = [] \<longleftrightarrow>
   filename ` set sa_df \<inter> (\<lambda>v. normalize_ligand (ligand v)) ` set vina_df = {}"
  by (simp add: merged_frame_def pd_merge_empty_iff image_image)



text \<open>
  Claim C7 (empty intersection), as amended. When no normalised identifier occurs in both
  tables the merge is empty, the same empty frame that tables without rows give;
  \<open>plot_sa_vs_affinity\<close> then prints its warning about the key columns and returns, in
  the same way as for tables without rows. No error is raised.
\<close>

theorem empty_merge_warning:
  assumes "filename ` set sa_df \<inter> (\<lambda>v. normalize_ligand (ligand v)) ` set vina_df = {}"
  shows "merged_frame sa_df vina_df = []
         \<and> merged_frame sa_df vina_df = merged_frame [] []
         \<and> plot_sa_vs_affinity py_float sa_df vina_df = Inr NoMatchWarning
         \<and> plot_sa_vs_affinity py_float sa_df vina_df = plot_sa_vs_affinity py_float [] []"
proof -
  have e: "merged_frame sa_df vina_df = []"
    using assms by (simp add: merged_frame_empty_iff)
  have "merged_frame [] [] = []"
    by (simp add: merged_frame_def pd_merge_def)
  with e show ?thesis by (simp add: plot_sa_vs_affinity_def)
qed

theorem empty_merge_warning_witness:
  "filename ` set [\<lparr>filename = ''a.sdf'', sa_score = Num (Finite 2)\<rparr>]
     \<inter> (\<lambda>v. normalize_ligand (ligand v)) ` set [\<lparr>ligand = ''7'', affinity_kcal_mol = Num (Finite 1)\<rparr>] = {}
   \<and> plot_sa_vs_affinity float_lit [\<lparr>filename = ''a.sdf'', sa_score = Num (Finite 2)\<rparr>]
        [\<lparr>ligand = ''7'', affinity_kcal_mol = Num (Finite 1)\<rparr>] = Inr NoMatchWarning"
  using empty_merge_warning [of "[\<lparr>filename = ''a.sdf'', sa_score = Num (Finite 2)\<rparr>]"
      "[\<lparr>ligand = ''7'', affinity_kcal_mol = Num (Finite 1)\<rparr>]" float_lit]
  by (simp add: normalize_ligand_def isdigit_def isdigit_char_def)

text \<open>
  The claim as stated asks for an empty intersection to be told apart from tables without
  rows and to be raised as an error. Tables with the disjoint identifiers \<open>7\<close> and
  \<open>8.sdf\<close> and tables without rows give the same merge and the same normal return.
\<close>

theorem empty_merge_indistinguishable:
  "plot_sa_vs_affinity float_lit [\<lparr>filename = ''7'', sa_score = Num (Finite 2)\<rparr>]
        [\<lparr>ligand = ''8.sdf'', affinity_kcal_mol = Num (Finite 1)\<rparr>] = Inr NoMatchWarning
   \<and> plot_sa_vs_affinity float_lit [] [] = Inr NoMatchWarning
   \<and> merged_frame [\<lparr>filename = ''7'', sa_score = Num (Finite 2)\<rparr>]
        [\<lparr>ligand = ''8.sdf'', affinity_kcal_mol = Num (Finite 1)\<rparr>] = merged_frame [] []"
  by (simp add: plot_sa_vs_affinity_def merged_frame_def pd_merge_def normalize_ligand_def
      isdigit_def isdigit_char_def)

section \<open>Values that are not numbers\<close>

lemma astype_float_rejects:
  "Str s \<in> set cs \<Longrightarrow> py_float s = None \<Longrightarrow> astype_float py_float cs = Inl ValueError"
proof (induction py_float cs rule: astype_float.induct)
  case (1 py_float)
  then show ?case by simp
next
  case (2 py_float v cs)
  then show ?case by simp
next
  case (3 py_float t cs)
  show ?case
  proof (cases "py_float t")
    case None
    then show ?thesis by simp
  next
    case (Some v)
    with "3.prems" have "Str s \<in> set cs" by auto
    with "3.IH" [OF Some] "3.prems" Some show ?thesis by simp
  qed
qed

lemma those_None: "None \<in> set xs \<Longrightarrow> those xs = None"
  by (induction xs) (auto split: option.splits)

text \<open>A string as SA score or affinity of a merged record stops the call at line 81.\<close>

lemma plot_rejects:
  assumes "m \<in> set (merged_frame sa_df vina_df)"
    and "sa_score (fst m) = Str s \<or> affinity_kcal_mol (snd m) = Str s"
  shows "plot_sa_vs_affinity py_float sa_df vina_df = Inl TypeError"
proof -
  let ?merged = "merged_frame sa_df vina_df"
  have ne: "?merged \<noteq> []" using assms(1) by auto
  have "merged_point m = None"
    using assms(2) by (auto simp: merged_point_def split: option.splits)
  then have "None \<in> set (map merged_point ?merged)"
    using assms(1) by force
  then have "those (map merged_point ?merged) = None" by (rule those_None)
  with ne show ?thesis by (simp add: plot_sa_vs_affinity_def)
qed

text \<open>
  A missing affinity (NaN) is no failure: the record is scanned and never appended.
\<close>

lemma missing_affinity_skipped:
  "plot_sa_vs_affinity float_lit
     [\<lparr>filename = ''a.sdf'', sa_score = Num (Finite 1)\<rparr>,
      \<lparr>filename = ''b.sdf'', sa_score = Num (Finite 2)\<rparr>]
     [\<lparr>ligand = ''a.sdf'', affinity_kcal_mol = Num NaN\<rparr>,
      \<lparr>ligand = ''b.sdf'', affinity_kcal_mol = Num (Finite 3)\<rparr>]
   = Inr (Plotted [(Finite 2, Finite 3)]
       (Some [(\<lparr>filename = ''b.sdf'', sa_score = Num (Finite 2)\<rparr>,
               \<lparr>ligand = ''b.sdf'', affinity_kcal_mol = Num (Finite 3)\<rparr>)]))"
  by (simp add: plot_sa_vs_affinity_def merged_frame_def pd_merge_def normalize_ligand_def
      isdigit_def isdigit_char_def label_index_def idxmin_def upt_rec merged_point_def
      frontier_def frontier_indices_def pareto_scan_def sort_values_def enumerate_eq_zip
      sort_rank_def scan_step_def scan_init_def)

section \<open>Properties of the rank sorter\<close>

lemma keys_of_Inl:
  "d \<in> set rows \<Longrightarrow> sort_key_of py_float d = Inl e \<Longrightarrow> \<exists>e'. keys_of py_float rows = Inl e'"
proof (induction rows)
  case Nil
  then show ?case by simp
next
  case (Cons x xs)
  show ?case
  proof (cases "sort_key_of py_float x")
    case (Inl a)
    then show ?thesis by simp
  next
    case (Inr k)
    with Cons.prems have "d \<in> set xs" by auto
    from Cons.IH [OF this Cons.prems(2)] Inr show ?thesis by auto
  qed
qed

lemma keys_of_Inr:
  "keys_of py_float rows = Inr ks \<Longrightarrow>
   length ks = length rows \<and> (\<forall>p\<in>set (zip ks rows). sort_key_of py_float (snd p) = Inr (fst p))"
proof (induction rows arbitrary: ks)
  case Nil
  then show ?case by simp
next
  case (Cons x xs)
  from Cons.prems obtain k ks' where
    k: "sort_key_of py_float x = Inr k" and ks': "keys_of py_float xs = Inr ks'"
    and eq: "ks = k # ks'"
    by (auto split: sum.splits)
  from Cons.IH [OF ks'] k eq show ?case by auto
qed

lemma keys_of_total:
  "\<forall>d\<in>set rows. \<exists>v. sort_key_of py_float d = Inr v \<Longrightarrow> \<exists>ks. keys_of py_float rows = Inr ks"
  by (induction rows) auto

text \<open>Without NaN among the keys the insertion is the insertion into a list ordered by rank.\<close>

lemma insort_lt_insort_key:
  "fst x \<noteq> NaN \<Longrightarrow> \<forall>y\<in>set ys. fst y \<noteq> NaN \<Longrightarrow>
   insort_lt x ys = insort_key (\<lambda>kv. rank (fst kv)) x ys"
proof (induction ys)
  case Nil
  show ?case by simp
next
  case (Cons y ys)
  then have "flt (fst y) (fst x) \<longleftrightarrow> \<not> rank (fst x) \<le> rank (fst y)"
    by (simp add: rank_less_iff [symmetric] not_le)
  with Cons show ?case by simp
qed

lemma list_sort_sort_key:
  "\<forall>y\<in>set kvs. fst y \<noteq> NaN \<Longrightarrow> list_sort kvs = sort_key (\<lambda>kv. rank (fst kv)) kvs"
proof (induction kvs)
  case Nil
  show ?case by (simp add: list_sort_def)
next
  case (Cons x kvs)
  then have "list_sort kvs = sort_key (\<lambda>kv. rank (fst kv)) kvs" by simp
  moreover have "\<forall>y\<in>set (sort_key (\<lambda>kv. rank (fst kv)) kvs). fst y \<noteq> NaN"
    using Cons.prems by simp
  ultimately show ?case
    using Cons.prems by (simp add: list_sort_def insort_lt_insort_key)
qed

text \<open>A list in which no key is below its left neighbour stays as it is.\<close>

lemma list_sort_no_descent:
  "successively (\<lambda>a b. \<not> flt (fst b) (fst a)) kvs \<Longrightarrow> list_sort kvs = kvs"
proof (induction kvs)
  case Nil
  show ?case by (simp add: list_sort_def)
next
  case (Cons x kvs)
  show ?case
  proof (cases kvs)
    case Nil
    then show ?thesis by (simp add: list_sort_def)
  next
    case (Cons y ys)
    with Cons.prems have nd: "\<not> flt (fst y) (fst x)"
      and "successively (\<lambda>a b. \<not> flt (fst b) (fst a)) kvs" by simp_all
    with Cons.IH have "list_sort kvs = kvs" by simp
    then have "list_sort (x # kvs) = insort_lt x kvs" by (simp add: list_sort_def)
    with nd Cons show ?thesis by simp
  qed
qed

lemma set_insort_lt: "set (insort_lt x ys) = insert x (set ys)"
  by (induction ys) auto

lemma length_insort_lt: "length (insort_lt x ys) = Suc (length ys)"
  by (induction ys) auto

lemma set_list_sort: "set (list_sort kvs) = set kvs"
  by (induction kvs) (simp_all add: list_sort_def set_insort_lt)

lemma length_list_sort: "length (list_sort kvs) = length kvs"
  by (induction kvs) (simp_all add: list_sort_def length_insort_lt)

lemma sort_rows_keeps:
  assumes "sort_rows py_float rows = Inr out"
  shows "length out = length rows \<and> set out = set rows"
proof -
  from assms obtain ks where ks: "keys_of py_float rows = Inr ks"
    and out: "out = map snd (list_sort (zip ks rows))"
    by (auto simp: sort_rows_def split: sum.splits)
  from keys_of_Inr [OF ks] have len: "length ks = length rows" by simp
  have "set out = set (map snd (zip ks rows))"
    by (simp add: out set_list_sort)
  then have "set out = set rows" using len by (simp only: map_snd_zip)
  moreover have "length out = length rows"
    using len by (simp add: out length_list_sort)
  ultimately show ?thesis by simp
qed

lemma write_rows_Written:
  "write_rows fieldnames rows = Written fns out \<Longrightarrow> out = rows \<and> fieldnames = Some fns"
  by (auto simp: write_rows_def Let_def split: option.splits if_splits)

lemma write_rows_complete:
  assumes "\<forall>d\<in>set rows. map_of d None = None"
  shows "write_rows (Some fns) rows = Written fns rows"
proof -
  have tw: "takeWhile (\<lambda>d. map_of d None = None) rows = rows"
    using assms by (simp add: takeWhile_eq_all_conv)
  show ?thesis unfolding write_rows_def Let_def tw by simp
qed

lemma write_rows_partial:
  assumes "write_rows fieldnames rows = Raised_writing e h part"
  shows "fieldnames = None \<or> (\<exists>d\<in>set rows. map_of d None \<noteq> None)"
proof (cases fieldnames)
  case None
  then show ?thesis by simp
next
  case (Some fns)
  show ?thesis
  proof (rule ccontr)
    assume "\<not> (fieldnames = None \<or> (\<exists>d\<in>set rows. map_of d None \<noteq> None))"
    then have "\<forall>d\<in>set rows. map_of d None = None" by blast
    then have "write_rows (Some fns) rows = Written fns rows" by (rule write_rows_complete)
    with assms Some show False by simp
  qed
qed

lemma count_insort_lt:
  "count_list (map f (insort_lt x ys)) y = count_list (map f (x # ys)) y"
  by (induction ys) auto

lemma count_list_sort:
  "count_list (map f (list_sort kvs)) y = count_list (map f kvs) y"
  by (induction kvs) (simp_all add: list_sort_def count_insort_lt)

lemma sort_rows_count:
  assumes "sort_rows py_float rows = Inr out"
  shows "count_list out d = count_list rows d"
proof -
  from assms obtain ks where ks: "keys_of py_float rows = Inr ks"
    and out: "out = map snd (list_sort (zip ks rows))"
    by (auto simp: sort_rows_def split: sum.splits)
  from keys_of_Inr [OF ks] have len: "length ks = length rows" by simp
  have "count_list out d = count_list (map snd (zip ks rows)) d"
    by (simp only: out count_list_sort)
  then show ?thesis using len by (simp only: map_snd_zip)
qed

lemma sort_rows_parsed:
  assumes "sort_rows py_float rows = Inr out" and "d \<in> set rows"
  shows "\<exists>v. sort_key_of py_float d = Inr v"
proof (cases "sort_key_of py_float d")
  case (Inl e)
  with assms(2) obtain e' where "keys_of py_float rows = Inl e'" using keys_of_Inl by blast
  then have "sort_rows py_float rows = Inl e'" by (simp add: sort_rows_def)
  with assms(1) show ?thesis by simp
next
  case (Inr v)
  then show ?thesis by blast
qed

lemma sort_rows_total:
  assumes "\<forall>d\<in>set rows. \<exists>v. sort_key_of py_float d = Inr v"
  shows "\<exists>out. sort_rows py_float rows = Inr out"
proof -
  from assms obtain ks where "keys_of py_float rows = Inr ks" using keys_of_total by blast
  then show ?thesis by (simp add: sort_rows_def)
qed

lemma plain_row_simps:
  "plain_row ''ligand,affinity_kcal/mol\<newline>'' = [''ligand'', ''affinity_kcal/mol'']"
  "plain_row ''7,-7.5\<newline>'' = [''7'', ''-7.5'']"
  "plain_row ''8,-9.25\<newline>'' = [''8'', ''-9.25'']"
  "plain_row ''7,abc\<newline>'' = [''7'', ''abc'']"
  "plain_row ''9\<newline>'' = [''9'']"
  "plain_row ''7,-7.5,x\<newline>'' = [''7'', ''-7.5'', ''x'']"
  by (simp_all add: plain_row_def)

text \<open>
  Claim C8 (sort order and stability), as amended. When the key of every row parses as a
  float and none of the keys is NaN, the sort succeeds, the rows come out in ascending
  order of their keys, and the rows sharing a key keep the order they had in the input.
  No row is lost or added.
\<close>

theorem sort_rows_ascending_stable:
  assumes "\<forall>d\<in>set rows. \<exists>v. sort_key_of py_float d = Inr v \<and> v \<noteq> NaN"
  shows "\<exists>out. sort_rows py_float rows = Inr out
           \<and> sorted_wrt (\<lambda>a b. \<exists>x y. sort_key_of py_float a = Inr x
                                     \<and> sort_key_of py_float b = Inr y \<and> fle x y) out
           \<and> (\<forall>k. filter (\<lambda>d. sort_key_of py_float d = Inr k) out
                   = filter (\<lambda>d. sort_key_of py_float d = Inr k) rows)
           \<and> length out = length rows \<and> set out = set rows"
proof -
  let ?f = "\<lambda>kv :: pyfloat \<times> pydict. rank (fst kv)"
  from assms have "\<forall>d\<in>set rows. \<exists>v. sort_key_of py_float d = Inr v" by blast
  then obtain ks where ks: "keys_of py_float rows = Inr ks" using keys_of_total by blast
  from keys_of_Inr [OF ks] have len: "length ks = length rows"
    and key: "\<forall>p\<in>set (zip ks rows). sort_key_of py_float (snd p) = Inr (fst p)"
    by simp_all
  have nn: "\<forall>p\<in>set (zip ks rows). fst p \<noteq> NaN"
  proof
    fix p assume p: "p \<in> set (zip ks rows)"
    then have "snd p \<in> set rows" by (metis in_set_zipE prod.collapse)
    with assms obtain v where "sort_key_of py_float (snd p) = Inr v" "v \<noteq> NaN" by blast
    with key p show "fst p \<noteq> NaN" by simp
  qed
  let ?S = "sort_key ?f (zip ks rows)"
  have S: "list_sort (zip ks rows) = ?S" using nn by (rule list_sort_sort_key)
  have out: "sort_rows py_float rows = Inr (map snd ?S)"
    by (simp add: sort_rows_def ks S)
  have inS: "\<forall>p\<in>set ?S. sort_key_of py_float (snd p) = Inr (fst p) \<and> fst p \<noteq> NaN"
    using key nn by simp
  have "sorted_wrt (\<lambda>p q. rank (fst p) \<le> rank (fst q)) ?S"
    using sorted_sort_key [of ?f "zip ks rows"] by (simp add: sorted_map)
  then have "sorted_wrt (\<lambda>p q. \<exists>x y. sort_key_of py_float (snd p) = Inr x
                 \<and> sort_key_of py_float (snd q) = Inr y \<and> fle x y) ?S"
    using sorted_wrt_mono_rel [of ?S "\<lambda>p q. rank (fst p) \<le> rank (fst q)"
        "\<lambda>p q. \<exists>x y. sort_key_of py_float (snd p) = Inr x
                 \<and> sort_key_of py_float (snd q) = Inr y \<and> fle x y"]
      inS by (simp add: rank_fle)
  then have srt: "sorted_wrt (\<lambda>a b. \<exists>x y. sort_key_of py_float a = Inr x
                 \<and> sort_key_of py_float b = Inr y \<and> fle x y) (map snd ?S)"
    by (simp add: sorted_wrt_map)
  have stable: "filter (\<lambda>d. sort_key_of py_float d = Inr k) (map snd ?S)
                = filter (\<lambda>d. sort_key_of py_float d = Inr k) rows" for k
  proof -
    have "filter (\<lambda>d. sort_key_of py_float d = Inr k) (map snd ?S)
          = map snd (filter (\<lambda>p. sort_key_of py_float (snd p) = Inr k) ?S)"
      by (simp add: filter_map comp_def)
    also have "filter (\<lambda>p. sort_key_of py_float (snd p) = Inr k) ?S
               = filter (\<lambda>p. ?f p = rank k) ?S"
      using inS by (intro filter_cong) (auto simp: rank_eq_iff)
    also have "\<dots> = filter (\<lambda>p. ?f p = rank k) (zip ks rows)"
      by (rule sort_key_stable)
    also have "\<dots> = filter (\<lambda>p. sort_key_of py_float (snd p) = Inr k) (zip ks rows)"
      using key by (intro filter_cong) (auto simp: rank_eq_iff)
    also have "map snd \<dots> = filter (\<lambda>d. sort_key_of py_float d = Inr k) (map snd (zip ks rows))"
      by (simp add: filter_map comp_def)
    also have "map snd (zip ks rows) = rows" using len by simp
    finally show ?thesis .
  qed
  have "length (map snd ?S) = length rows" using len by simp
  moreover have "set (map snd ?S) = set (map snd (zip ks rows))"
    by simp
  then have "set (map snd ?S) = set rows"
    using len by (simp only: map_snd_zip)
  ultimately show ?thesis using out srt stable by blast
qed

theorem sort_rows_ascending_stable_witness:
  "sort_key_of float_lit [(Some ''ligand'', PStr ''a''), (Some ''affinity_kcal/mol'', PStr ''2'')]
     = Inr (Finite 2)
   \<and> sort_key_of float_lit [(Some ''ligand'', PStr ''b''), (Some ''affinity_kcal/mol'', PStr ''1'')]
     = Inr (Finite 1)
   \<and> sort_key_of float_lit [(Some ''ligand'', PStr ''c''), (Some ''affinity_kcal/mol'', PStr ''1'')]
     = Inr (Finite 1)
   \<and> sort_rows float_lit
        [[(Some ''ligand'', PStr ''a''), (Some ''affinity_kcal/mol'', PStr ''2'')],
         [(Some ''ligand'', PStr ''b''), (Some ''affinity_kcal/mol'', PStr ''1'')],
         [(Some ''ligand'', PStr ''c''), (Some ''affinity_kcal/mol'', PStr ''1'')]]
      = Inr [[(Some ''ligand'', PStr ''b''), (Some ''affinity_kcal/mol'', PStr ''1'')],
             [(Some ''ligand'', PStr ''c''), (Some ''affinity_kcal/mol'', PStr ''1'')],
             [(Some ''ligand'', PStr ''a''), (Some ''affinity_kcal/mol'', PStr ''2'')]]"
  using sort_rows_ascending_stable [of
      "[[(Some ''ligand'', PStr ''a''), (Some ''affinity_kcal/mol'', PStr ''2'')],
        [(Some ''ligand'', PStr ''b''), (Some ''affinity_kcal/mol'', PStr ''1'')],
        [(Some ''ligand'', PStr ''c''), (Some ''affinity_kcal/mol'', PStr ''1'')]]" float_lit]
  by (simp add: sort_rows_def sort_key_of_def float_lit_def list_sort_def)

text \<open>
  The claim as stated, for every table whose keys parse, fails on the key \<open>nan\<close>, which
  \<open>float()\<close> accepts: no comparison with NaN holds, so the keys 2, NaN, 1 count as one
  ascending run and the rows stay as they are, 2 before 1.
\<close>

theorem sort_rows_NaN:
  "sort_rows float_lit
     [[(Some ''ligand'', PStr ''a''), (Some ''affinity_kcal/mol'', PStr ''2'')],
      [(Some ''ligand'', PStr ''b''), (Some ''affinity_kcal/mol'', PStr ''nan'')],
      [(Some ''ligand'', PStr ''c''), (Some ''affinity_kcal/mol'', PStr ''1'')]]
   = Inr [[(Some ''ligand'', PStr ''a''), (Some ''affinity_kcal/mol'', PStr ''2'')],
          [(Some ''ligand'', PStr ''b''), (Some ''affinity_kcal/mol'', PStr ''nan'')],
          [(Some ''ligand'', PStr ''c''), (Some ''affinity_kcal/mol'', PStr ''1'')]]
   \<and> sort_key_of float_lit [(Some ''ligand'', PStr ''a''), (Some ''affinity_kcal/mol'', PStr ''2'')]
       = Inr (Finite 2)
   \<and> sort_key_of float_lit [(Some ''ligand'', PStr ''b''), (Some ''affinity_kcal/mol'', PStr ''nan'')]
       = Inr NaN
   \<and> sort_key_of float_lit [(Some ''ligand'', PStr ''c''), (Some ''affinity_kcal/mol'', PStr ''1'')]
       = Inr (Finite 1)
   \<and> \<not> fle (Finite 2) (Finite 1)"
  by (simp add: sort_rows_def sort_key_of_def float_lit_def list_sort_def)

text \<open>
  Claim C10 (lines without a comma). A line without a comma is discarded before the CSV
  is parsed: with the line or without it the sorter does the same, writes the same rows
  or raises the same error, so the line is in no output and causes no failure.
\<close>

theorem comma_filter:
  "(\<not> has_comma l \<longrightarrow>
      postprocess_vina_results csv_reader py_float (xs @ l # ys)
      = postprocess_vina_results csv_reader py_float (xs @ ys))
   \<and> postprocess_vina_results csv_reader py_float infile
       = postprocess_vina_results csv_reader py_float (filter has_comma infile)"
  by (simp add: postprocess_vina_results_def)

theorem comma_filter_witness:
  "\<not> has_comma ''broken row\<newline>''
   \<and> postprocess_vina_results plain_csv_reader float_lit
       [''ligand,affinity_kcal/mol\<newline>'', ''7,-7.5\<newline>'',
        ''broken row\<newline>'', ''8,-9.25\<newline>'']
     = Written [''ligand'', ''affinity_kcal/mol'']
         [[(Some ''ligand'', PStr ''8''), (Some ''affinity_kcal/mol'', PStr ''-9.25'')],
          [(Some ''ligand'', PStr ''7''), (Some ''affinity_kcal/mol'', PStr ''-7.5'')]]"
  using comma_filter [of "''broken row\<newline>''" plain_csv_reader float_lit
      "[''ligand,affinity_kcal/mol\<newline>'', ''7,-7.5\<newline>'']"
      "[''8,-9.25\<newline>'']"]
  by (simp add: has_comma_def postprocess_vina_results_def plain_csv_reader_def
      plain_row_simps dict_reader_def make_dict_def sort_rows_def sort_key_of_def
      float_lit_def list_sort_def write_rows_def)

lemma sorter_key_failure:
  assumes "dict_reader csv_reader (filter has_comma infile) = Inr (fieldnames, rows)"
    and "d \<in> set rows" and "sort_key_of py_float d = Inl e"
  shows "\<exists>e'. postprocess_vina_results csv_reader py_float infile = Raised_before e'"
proof -
  from assms(2,3) obtain e' where "keys_of py_float rows = Inl e'" using keys_of_Inl by blast
  then have "sort_rows py_float rows = Inl e'" by (simp add: sort_rows_def)
  with assms(1) have "postprocess_vina_results csv_reader py_float infile = Raised_before e'"
    by (simp add: postprocess_vina_results_def)
  then show ?thesis ..
qed

lemma sorter_complete:
  assumes rd: "dict_reader csv_reader (filter has_comma infile) = Inr (fieldnames, rows)"
    and parse: "\<forall>r\<in>set rows. \<exists>v. sort_key_of py_float r = Inr v"
    and hd: "fieldnames = Some fns" and fit: "\<forall>r\<in>set rows. map_of r None = None"
  shows "\<exists>out. postprocess_vina_results csv_reader py_float infile = Written fns out
           \<and> length out = length rows \<and> set out = set rows
           \<and> (\<forall>r. count_list out r = count_list rows r)"
proof -
  from sort_rows_total [OF parse] obtain srt where s: "sort_rows py_float rows = Inr srt" ..
  from sort_rows_keeps [OF s] have keep: "length srt = length rows" "set srt = set rows"
    by simp_all
  with fit have "\<forall>r\<in>set srt. map_of r None = None" by simp
  then have "write_rows (Some fns) srt = Written fns srt" by (rule write_rows_complete)
  with rd s hd have "postprocess_vina_results csv_reader py_float infile = Written fns srt"
    by (simp add: postprocess_vina_results_def)
  moreover have "\<forall>r. count_list srt r = count_list rows r"
    using sort_rows_count [OF s] by simp
  ultimately show ?thesis using keep by blast
qed

lemma sorter_written_rows:
  assumes rd: "dict_reader csv_reader (filter has_comma infile) = Inr (fieldnames, rows)"
    and w: "postprocess_vina_results csv_reader py_float infile = Written fns out"
  shows "length out = length rows \<and> set out = set rows
         \<and> (\<forall>r. count_list out r = count_list rows r)"
proof -
  from w rd obtain srt where s: "sort_rows py_float rows = Inr srt"
    and wr: "write_rows fieldnames srt = Written fns out"
    by (auto simp: postprocess_vina_results_def split: sum.splits)
  from write_rows_Written [OF wr] have eq: "out = srt" by simp
  from sort_rows_keeps [OF s] eq have "length out = length rows" "set out = set rows"
    by simp_all
  moreover have "\<forall>r. count_list out r = count_list rows r"
    using sort_rows_count [OF s] eq by simp
  ultimately show ?thesis by simp
qed

lemma sorter_partial_only:
  assumes rd: "dict_reader csv_reader (filter has_comma infile) = Inr (fieldnames, rows)"
    and w: "postprocess_vina_results csv_reader py_float infile = Raised_writing e h part"
  shows "(\<forall>r\<in>set rows. \<exists>v. sort_key_of py_float r = Inr v)
         \<and> (fieldnames = None \<or> (\<exists>r\<in>set rows. map_of r None \<noteq> None))"
proof -
  from w rd obtain srt where s: "sort_rows py_float rows = Inr srt"
    and wr: "write_rows fieldnames srt = Raised_writing e h part"
    by (auto simp: postprocess_vina_results_def split: sum.splits)
  have "\<forall>r\<in>set rows. \<exists>v. sort_key_of py_float r = Inr v"
    using sort_rows_parsed [OF s] by blast
  moreover from write_rows_partial [OF wr] sort_rows_keeps [OF s]
  have "fieldnames = None \<or> (\<exists>r\<in>set rows. map_of r None \<noteq> None)" by simp
  ultimately show ?thesis by simp
qed

text \<open>
  Claim C6 (no output over values that are not numbers), as amended. Lines without a comma
  are dropped first (C10). Of the rows read from the other lines:
  if one has a key field that is missing or that \<open>float()\<close> rejects, the sorter raises
  before the output file is opened, so nothing is written;
  if every key parses, a header was read and no row has more fields than the header, the
  sorter writes the header and every row that was read;
  whenever the sorter completes its output, the rows written are the rows read, each as
  often as it was read;
  the writer raises after the file was opened, leaving a partial file, only when every
  key parsed and either no header was read or some row has more fields than the header.
  In \<open>plot_sa_vs_affinity\<close>, if a merged record has a string that \<open>float()\<close> rejects as
  its SA score or affinity, the call raises TypeError and no frontier is plotted or saved.
\<close>

theorem abort_on_rejected_value:
  "(dict_reader csv_reader (filter has_comma infile) = Inr (fieldnames, rows)
      \<longrightarrow> d \<in> set rows \<longrightarrow> sort_key_of py_float d = Inl e
      \<longrightarrow> (\<exists>e'. postprocess_vina_results csv_reader py_float infile = Raised_before e'))
   \<and> (dict_reader csv_reader (filter has_comma infile) = Inr (fieldnames, rows)
      \<longrightarrow> (\<forall>r\<in>set rows. \<exists>v. sort_key_of py_float r = Inr v)
      \<longrightarrow> fieldnames = Some fns' \<longrightarrow> (\<forall>r\<in>set rows. map_of r None = None)
      \<longrightarrow> (\<exists>out'. postprocess_vina_results csv_reader py_float infile = Written fns' out'
                  \<and> length out' = length rows \<and> set out' = set rows
                  \<and> (\<forall>r. count_list out' r = count_list rows r)))
   \<and> (dict_reader csv_reader (filter has_comma infile) = Inr (fieldnames, rows)
      \<longrightarrow> postprocess_vina_results csv_reader py_float infile = Written fns out
      \<longrightarrow> length out = length rows \<and> set out = set rows
          \<and> (\<forall>r. count_list out r = count_list rows r))
   \<and> (dict_reader csv_reader (filter has_comma infile) = Inr (fieldnames, rows)
      \<longrightarrow> postprocess_vina_results csv_reader py_float infile = Raised_writing e2 hdr part
      \<longrightarrow> (\<forall>r\<in>set rows. \<exists>v. sort_key_of py_float r = Inr v)
          \<and> (fieldnames = None \<or> (\<exists>r\<in>set rows. map_of r None \<noteq> None)))
   \<and> (m \<in> set (merged_frame sa_df vina_df)
      \<longrightarrow> sa_score (fst m) = Str s \<or> affinity_kcal_mol (snd m) = Str s
      \<longrightarrow> py_float s = None
      \<longrightarrow> plot_sa_vs_affinity py_float sa_df vina_df = Inl TypeError)"
proof -
  have a: "dict_reader csv_reader (filter has_comma infile) = Inr (fieldnames, rows)
      \<longrightarrow> d \<in> set rows \<longrightarrow> sort_key_of py_float d = Inl e
      \<longrightarrow> (\<exists>e'. postprocess_vina_results csv_reader py_float infile = Raised_before e')"
    using sorter_key_failure by blast
  have b: "dict_reader csv_reader (filter has_comma infile) = Inr (fieldnames, rows)
      \<longrightarrow> (\<forall>r\<in>set rows. \<exists>v. sort_key_of py_float r = Inr v)
      \<longrightarrow> fieldnames = Some fns' \<longrightarrow> (\<forall>r\<in>set rows. map_of r None = None)
      \<longrightarrow> (\<exists>out'. postprocess_vina_results csv_reader py_float infile = Written fns' out'
                  \<and> length out' = length rows \<and> set out' = set rows
                  \<and> (\<forall>r. count_list out' r = count_list rows r))"
    using sorter_complete [of csv_reader infile fieldnames rows py_float fns'] by blast
  have c: "dict_reader csv_reader (filter has_comma infile) = Inr (fieldnames, rows)
      \<longrightarrow> postprocess_vina_results csv_reader py_float infile = Written fns out
      \<longrightarrow> length out = length rows \<and> set out = set rows
          \<and> (\<forall>r. count_list out r = count_list rows r)"
    using sorter_written_rows [of csv_reader infile fieldnames rows py_float fns out] by blast
  have d: "dict_reader csv_reader (filter has_comma infile) = Inr (fieldnames, rows)
      \<longrightarrow> postprocess_vina_results csv_reader py_float infile = Raised_writing e2 hdr part
      \<longrightarrow> (\<forall>r\<in>set rows. \<exists>v. sort_key_of py_float r = Inr v)
          \<and> (fieldnames = None \<or> (\<exists>r\<in>set rows. map_of r None \<noteq> None))"
    using sorter_partial_only [of csv_reader infile fieldnames rows py_float e2 hdr part] by blast
  have e: "m \<in> set (merged_frame sa_df vina_df)
      \<longrightarrow> sa_score (fst m) = Str s \<or> affinity_kcal_mol (snd m) = Str s
      \<longrightarrow> py_float s = None
      \<longrightarrow> plot_sa_vs_affinity py_float sa_df vina_df = Inl TypeError"
    using plot_rejects [of m sa_df vina_df s py_float] by blast
  show ?thesis
    by (rule conjI [OF a conjI [OF b conjI [OF c conjI [OF d e]]]])
qed

theorem abort_on_rejected_value_witness:
  "postprocess_vina_results plain_csv_reader float_lit
       [''ligand,affinity_kcal/mol\<newline>'', ''7,abc\<newline>''] = Raised_before ValueError
   \<and> postprocess_vina_results plain_csv_reader float_lit
       [''ligand,affinity_kcal/mol\<newline>'', ''7,-7.5\<newline>'', ''8,-9.25\<newline>'']
     = Written [''ligand'', ''affinity_kcal/mol'']
         [[(Some ''ligand'', PStr ''8''), (Some ''affinity_kcal/mol'', PStr ''-9.25'')],
          [(Some ''ligand'', PStr ''7''), (Some ''affinity_kcal/mol'', PStr ''-7.5'')]]
   \<and> postprocess_vina_results plain_csv_reader float_lit
       [''ligand,affinity_kcal/mol\<newline>'', ''8,-9.25\<newline>'', ''7,-7.5,x\<newline>'']
     = Raised_writing ValueError (Some [''ligand'', ''affinity_kcal/mol''])
         [[(Some ''ligand'', PStr ''8''), (Some ''affinity_kcal/mol'', PStr ''-9.25'')]]
   \<and> float_lit ''abc'' = None
   \<and> plot_sa_vs_affinity float_lit [\<lparr>filename = ''7.sdf'', sa_score = Num (Finite 2)\<rparr>]
        [\<lparr>ligand = ''7'', affinity_kcal_mol = Str ''abc''\<rparr>] = Inl TypeError"
proof -
  let ?hdr = "[''ligand'', ''affinity_kcal/mol'']"
  let ?bad = "[(Some ''ligand'', PStr ''7''), (Some ''affinity_kcal/mol'', PStr ''abc'')]"
  let ?r7 = "[(Some ''ligand'', PStr ''7''), (Some ''affinity_kcal/mol'', PStr ''-7.5'')]"
  let ?r8 = "[(Some ''ligand'', PStr ''8''), (Some ''affinity_kcal/mol'', PStr ''-9.25'')]"
  let ?long = "[(Some ''ligand'', PStr ''7''), (Some ''affinity_kcal/mol'', PStr ''-7.5''),
                (None, PList [''x''])]"
  have f1: "filter has_comma [''ligand,affinity_kcal/mol\<newline>'', ''7,abc\<newline>'']
      = [''ligand,affinity_kcal/mol\<newline>'', ''7,abc\<newline>'']"
    by (simp add: has_comma_def)
  have rd1: "dict_reader plain_csv_reader
       (filter has_comma [''ligand,affinity_kcal/mol\<newline>'', ''7,abc\<newline>''])
     = Inr (Some ?hdr, [?bad])"
    unfolding f1
    by (simp add: plain_csv_reader_def plain_row_simps dict_reader_def make_dict_def)
  have k1: "sort_key_of float_lit ?bad = Inl ValueError"
    by (simp add: sort_key_of_def float_lit_def)
  have p1: "postprocess_vina_results plain_csv_reader float_lit
       [''ligand,affinity_kcal/mol\<newline>'', ''7,abc\<newline>''] = Raised_before ValueError"
    unfolding postprocess_vina_results_def Let_def rd1
    by (simp add: sort_rows_def k1)
  have f2: "filter has_comma [''ligand,affinity_kcal/mol\<newline>'', ''7,-7.5\<newline>'',
          ''8,-9.25\<newline>'']
      = [''ligand,affinity_kcal/mol\<newline>'', ''7,-7.5\<newline>'', ''8,-9.25\<newline>'']"
    by (simp add: has_comma_def)
  have rd2: "dict_reader plain_csv_reader
       (filter has_comma [''ligand,affinity_kcal/mol\<newline>'', ''7,-7.5\<newline>'',
          ''8,-9.25\<newline>''])
     = Inr (Some ?hdr, [?r7, ?r8])"
    unfolding f2
    by (simp add: plain_csv_reader_def plain_row_simps dict_reader_def make_dict_def)
  have k7: "sort_key_of float_lit ?r7 = Inr (Finite (- 7.5))"
    by (simp add: sort_key_of_def float_lit_def)
  have k8: "sort_key_of float_lit ?r8 = Inr (Finite (- 9.25))"
    by (simp add: sort_key_of_def float_lit_def)
  have p2: "postprocess_vina_results plain_csv_reader float_lit
       [''ligand,affinity_kcal/mol\<newline>'', ''7,-7.5\<newline>'', ''8,-9.25\<newline>'']
     = Written ?hdr [?r8, ?r7]"
    unfolding postprocess_vina_results_def Let_def rd2
    by (simp add: sort_rows_def k7 k8 list_sort_def write_rows_def)
  have f3: "filter has_comma [''ligand,affinity_kcal/mol\<newline>'', ''8,-9.25\<newline>'',
          ''7,-7.5,x\<newline>'']
      = [''ligand,affinity_kcal/mol\<newline>'', ''8,-9.25\<newline>'', ''7,-7.5,x\<newline>'']"
    by (simp add: has_comma_def)
  have rd3: "dict_reader plain_csv_reader
       (filter has_comma [''ligand,affinity_kcal/mol\<newline>'', ''8,-9.25\<newline>'',
          ''7,-7.5,x\<newline>''])
     = Inr (Some ?hdr, [?r8, ?long])"
    unfolding f3
    by (simp add: plain_csv_reader_def plain_row_simps dict_reader_def make_dict_def)
  have kl: "sort_key_of float_lit ?long = Inr (Finite (- 7.5))"
    by (simp add: sort_key_of_def float_lit_def)
  have p3: "postprocess_vina_results plain_csv_reader float_lit
       [''ligand,affinity_kcal/mol\<newline>'', ''8,-9.25\<newline>'', ''7,-7.5,x\<newline>'']
     = Raised_writing ValueError (Some ?hdr) [?r8]"
    unfolding postprocess_vina_results_def Let_def rd3
    by (simp add: sort_rows_def k8 kl list_sort_def write_rows_def)
  have mem: "(\<lparr>filename = ''7.sdf'', sa_score = Num (Finite 2)\<rparr>,
       \<lparr>ligand = ''7.sdf'', affinity_kcal_mol = Str ''abc''\<rparr>)
      \<in> set (merged_frame [\<lparr>filename = ''7.sdf'', sa_score = Num (Finite 2)\<rparr>]
                [\<lparr>ligand = ''7'', affinity_kcal_mol = Str ''abc''\<rparr>])"
    by (simp add: merged_frame_def pd_merge_def normalize_ligand_def isdigit_def
        isdigit_char_def)
  have fl: "float_lit ''abc'' = None"
    by (simp add: float_lit_def)
  have i1: "\<exists>e'. postprocess_vina_results plain_csv_reader float_lit
       [''ligand,affinity_kcal/mol\<newline>'', ''7,abc\<newline>''] = Raised_before e'"
    using abort_on_rejected_value [where csv_reader = plain_csv_reader and py_float = float_lit
      and infile = "[''ligand,affinity_kcal/mol\<newline>'', ''7,abc\<newline>'']"
      and fieldnames = "Some ?hdr" and rows = "[?bad]" and d = ?bad and e = ValueError,
      THEN conjunct1]
      rd1 k1 by simp
  have i2: "\<exists>out'. postprocess_vina_results plain_csv_reader float_lit
       [''ligand,affinity_kcal/mol\<newline>'', ''7,-7.5\<newline>'', ''8,-9.25\<newline>'']
       = Written ?hdr out' \<and> length out' = length [?r7, ?r8]"
    using abort_on_rejected_value [where csv_reader = plain_csv_reader and py_float = float_lit
      and infile = "[''ligand,affinity_kcal/mol\<newline>'', ''7,-7.5\<newline>'',
          ''8,-9.25\<newline>'']"
      and fieldnames = "Some ?hdr" and fns' = ?hdr and rows = "[?r7, ?r8]",
      THEN conjunct2, THEN conjunct1]
      rd2 k7 k8 by auto
  have i3: "\<exists>r\<in>set [?r8, ?long]. map_of r None \<noteq> None"
    using abort_on_rejected_value [where csv_reader = plain_csv_reader and py_float = float_lit
      and infile = "[''ligand,affinity_kcal/mol\<newline>'', ''8,-9.25\<newline>'',
          ''7,-7.5,x\<newline>'']"
      and fieldnames = "Some ?hdr" and rows = "[?r8, ?long]"
      and ?e2.0 = ValueError and hdr = "Some ?hdr" and part = "[?r8]",
      THEN conjunct2, THEN conjunct2, THEN conjunct2, THEN conjunct1]
      rd3 p3 by simp
  have i4: "plot_sa_vs_affinity float_lit [\<lparr>filename = ''7.sdf'', sa_score = Num (Finite 2)\<rparr>]
        [\<lparr>ligand = ''7'', affinity_kcal_mol = Str ''abc''\<rparr>] = Inl TypeError"
    using abort_on_rejected_value [where py_float = float_lit
      and m = "(\<lparr>filename = ''7.sdf'', sa_score = Num (Finite 2)\<rparr>,
                \<lparr>ligand = ''7.sdf'', affinity_kcal_mol = Str ''abc''\<rparr>)"
      and sa_df = "[\<lparr>filename = ''7.sdf'', sa_score = Num (Finite 2)\<rparr>]"
      and vina_df = "[\<lparr>ligand = ''7'', affinity_kcal_mol = Str ''abc''\<rparr>]"
      and s = "''abc''",
      THEN conjunct2, THEN conjunct2, THEN conjunct2, THEN conjunct2]
      mem fl by simp
  from i1 i2 i3 p1 p2 p3 fl i4 show ?thesis by (intro conjI)
qed

text \<open>
  The claim as stated has the whole sort fail on any record whose key field cannot be
  parsed, none being dropped. The record \<open>9\<close> has no key field (read as a row, its key
  fails with TypeError), yet the sorter writes the other row and raises nothing.
\<close>

theorem short_row_dropped:
  "sort_key_of float_lit (make_dict [''ligand'', ''affinity_kcal/mol''] (plain_row ''9\<newline>''))
     = Inl TypeError
   \<and> postprocess_vina_results plain_csv_reader float_lit
       [''ligand,affinity_kcal/mol\<newline>'', ''9\<newline>'', ''7,-7.5\<newline>'']
     = Written [''ligand'', ''affinity_kcal/mol'']
         [[(Some ''ligand'', PStr ''7''), (Some ''affinity_kcal/mol'', PStr ''-7.5'')]]"
  by (simp add: has_comma_def postprocess_vina_results_def plain_csv_reader_def
      plain_row_simps dict_reader_def make_dict_def sort_rows_def sort_key_of_def
      float_lit_def list_sort_def write_rows_def)

end
